theory Spec2Isabelle
  imports Main "HOL-Library.Sublist"
begin

section \<open>Values, errors and issues\<close>

text \<open>
  The values the analysed program's context hands to a detector: the context resolves a
  call argument to the literal or identifier it finds and to Python's \<open>None\<close> when it
  cannot. \<open>PStr\<close> carries strings and identifier names, \<open>PList\<close> list literals.
\<close>

datatype pyval =
    PNone
  | PBool bool
  | PInt int
  | PStr string
  | PList "pyval list"

text \<open>The exceptions the modelled functions can raise.\<close>

datatype error = KeyError | IndexError | TypeError | AttributeError

text \<open>
  An \<open>Issue\<close> as the detectors build it: one field per keyword argument that some
  detector passes to the constructor. A field the call does not pass is \<open>None\<close>
  (the constructor's own defaults are declared outside the files modelled here).
\<close>

record issue =
  severity :: pyval
  confidence :: pyval
  cwe :: "pyval option"
  text' :: string
  ident :: "pyval option"
  lineno :: "int option"
  test_id :: "pyval option"

text \<open>
  Modelled from the spec: the rank constants \<open>bandit.LOW\<close>, \<open>bandit.MEDIUM\<close> and
  \<open>bandit.HIGH\<close> are declared outside the files modelled here; the spec names the three
  ranks LOW, MEDIUM and HIGH, and the blacklist matcher writes them as these strings.
\<close>

definition LOW :: pyval where "LOW = PStr ''LOW''"
definition MEDIUM :: pyval where "MEDIUM = PStr ''MEDIUM''"
definition HIGH :: pyval where "HIGH = PStr ''HIGH''"

section \<open>Syntax nodes and the context facade\<close>

text \<open>
  The parts of a syntax node the blacklist matcher reads. \<open>OtherExpr\<close> and \<open>OtherNode\<close>
  stand for every other node class; none of their class names is \<open>Call\<close>, \<open>Name\<close>
  or \<open>Str\<close>, and none starts with \<open>Import\<close>.
\<close>

datatype expr =
    Name string
  | Str string
  | OtherExpr

record import_alias =
  name :: string
  asname :: "string option"

datatype node =
    Call expr "expr list"
  | Import "import_alias list"
  | ImportFrom "string option" "import_alias list"
  | OtherNode

text \<open>
  Modelled from the spec: \<open>utils.is_instance\<close> is outside the files modelled here.
  The spec notes that the source dispatches on a node's class name; \<open>is_instance\<close>
  tests whether the node's class is the named one.
\<close>

fun is_instance :: "expr \<Rightarrow> string \<Rightarrow> bool" where
  "is_instance (Name i) t = (t = ''Name'')"
| "is_instance (Str s) t = (t = ''Str'')"
| "is_instance OtherExpr t = False"

text \<open>
  The context a detector receives. Its class is outside the files modelled here, so the
  properties the detectors read are fields: the node, the resolved qualified and
  unqualified call names, the resolved positional arguments and their count, the
  resolved keyword arguments, and the two queries \<open>is_module_imported_like\<close> and
  \<open>get_lineno_for_call_arg\<close>.
\<close>

record Context =
  node :: node
  call_function_name_qual :: string
  call_function_name :: string
  call_args :: "pyval list"
  call_args_count :: nat
  call_keywords :: "string \<rightharpoonup> pyval"
  is_module_imported_like :: "string \<Rightarrow> bool"
  get_lineno_for_call_arg :: "string \<Rightarrow> int option"

text \<open>
  Modelled from the spec: \<open>check_call_arg_value\<close> is a method of the context, outside
  the files modelled here. The spec: it returns the literal value bound to the argument
  name if present, else \<open>None\<close>; if an expected value is given, it returns a boolean
  match instead. The expected value defaults to \<open>None\<close>, so \<open>PNone\<close> is "not given".
  The binding is looked up in the resolved keyword arguments.
\<close>

definition check_call_arg_value :: "Context \<Rightarrow> string \<Rightarrow> pyval \<Rightarrow> pyval" where
  "check_call_arg_value c argument_name expected =
     (if expected = PNone
      then (case call_keywords c argument_name of None \<Rightarrow> PNone | Some v \<Rightarrow> v)
      else PBool (call_keywords c argument_name = Some expected))"

text \<open>Python's truth value of a value, as an \<open>if\<close> tests it.\<close>

fun truthy :: "pyval \<Rightarrow> bool" where
  "truthy PNone = False"
| "truthy (PBool b) = b"
| "truthy (PInt i) = (i \<noteq> 0)"
| "truthy (PStr s) = (s \<noteq> [])"
| "truthy (PList xs) = (xs \<noteq> [])"

section \<open>B113: requests calls without a timeout\<close>

definition http_verbs :: "string list" where
  "http_verbs = [''get'', ''options'', ''head'', ''post'', ''put'', ''patch'', ''delete'']"

text \<open>
  \<open>request_without_timeout\<close>: Python's \<open>in\<close> on two strings is the contiguous
  substring test, \<open>sublist\<close>.
\<close>

definition request_without_timeout :: "Context \<Rightarrow> issue option" where
  "request_without_timeout c =
     (if sublist ''requests'' (call_function_name_qual c)
         \<and> call_function_name c \<in> set http_verbs
      then
        if check_call_arg_value c ''timeout'' PNone = PNone
        then Some \<lparr>severity = MEDIUM, confidence = LOW, cwe = None,
                   text' = ''Requests call without timeout'',
                   ident = None, lineno = None, test_id = None\<rparr>
        else if truthy (check_call_arg_value c ''timeout'' (PStr ''None''))
        then Some \<lparr>severity = MEDIUM, confidence = LOW, cwe = None,
                   text' = ''Requests call with timeout set to None'',
                   ident = None, lineno = None, test_id = None\<rparr>
        else None
      else None)"

section \<open>B507: paramiko host key policy\<close>

text \<open>
  \<open>ssh_no_host_key_verification\<close>. The table \<open>cwemap.CWEMAP\<close> is declared outside the
  files modelled here and is a parameter; a missing key raises \<open>KeyError\<close>. The keyword
  arguments of the \<open>Issue\<close> call are evaluated in the order written.
\<close>

definition ssh_no_host_key_verification ::
  "(string \<rightharpoonup> pyval) \<Rightarrow> Context \<Rightarrow> error + issue option" where
  "ssh_no_host_key_verification CWEMAP c =
     (if is_module_imported_like c ''paramiko''
         \<and> call_function_name c = ''set_missing_host_key_policy''
      then
        if (case call_args c of [] \<Rightarrow> False
            | a # _ \<Rightarrow> a \<in> set [PStr ''AutoAddPolicy'', PStr ''WarningPolicy''])
        then (case CWEMAP ''B507'' of
                None \<Rightarrow> Inl KeyError
              | Some w \<Rightarrow>
                  Inr (Some \<lparr>severity = HIGH, confidence = MEDIUM, cwe = Some w,
                     text' = ''Paramiko call with policy set to automatically trust the unknown host key.'',
                     ident = None,
                     lineno = get_lineno_for_call_arg c ''set_missing_host_key_policy'',
                     test_id = None\<rparr>))
        else Inr None
      else Inr None)"

section \<open>The blacklist matcher\<close>

text \<open>\<open>dict.get(key, default)\<close>.\<close>

definition dict_get :: "(string \<rightharpoonup> pyval) \<Rightarrow> string \<Rightarrow> pyval \<Rightarrow> pyval" where
  "dict_get d k dflt = (case d k of None \<Rightarrow> dflt | Some v \<Rightarrow> v)"

text \<open>
  \<open>str.replace(old, new)\<close>: every non-overlapping occurrence of \<open>old\<close>, from the left.
  With an empty \<open>old\<close> Python puts \<open>new\<close> before every character and at the end.
\<close>

function replace :: "string \<Rightarrow> string \<Rightarrow> string \<Rightarrow> string" where
  "replace [] old new = (if old = [] then new else [])"
| "replace (c # cs) old new =
     (if old = [] then new @ c # replace cs old new
      else if prefix old (c # cs) then new @ replace (drop (length old) (c # cs)) old new
      else c # replace cs old new)"
  by pat_completeness auto
termination
  by (relation "measure (\<lambda>(s, old, new). length s)") auto

text \<open>
  \<open>report_issue\<close>. A rule is a dictionary. The constant \<open>issue.Cwe.NOTSET\<close> is declared
  outside the files modelled here and is a parameter. \<open>check["message"]\<close> raises
  \<open>KeyError\<close> without the key, \<open>.replace\<close> raises \<open>AttributeError\<close> on a value that is
  not a string and \<open>TypeError\<close> when \<open>name\<close> is not a string.
\<close>

definition report_issue :: "pyval \<Rightarrow> (string \<rightharpoonup> pyval) \<Rightarrow> pyval \<Rightarrow> error + issue" where
  "report_issue NOTSET check nm =
     (case check ''message'' of
        None \<Rightarrow> Inl KeyError
      | Some (PStr m) \<Rightarrow>
          (case nm of
             PStr n \<Rightarrow>
               Inr \<lparr>severity = dict_get check ''level'' (PStr ''MEDIUM''),
                    confidence = PStr ''HIGH'',
                    cwe = Some (dict_get check ''cwe'' NOTSET),
                    text' = replace m ''{name}'' n,
                    ident = Some nm,
                    lineno = None,
                    test_id = Some (dict_get check ''id'' (PStr ''LEGACY''))\<rparr>
           | _ \<Rightarrow> Inl TypeError)
      | Some _ \<Rightarrow> Inl AttributeError)"

text \<open>
  \<open>return report_issue(check, name)\<close>: the matcher returns the issue, or the exception
  goes on.
\<close>

definition returned :: "error + issue \<Rightarrow> error + issue option" where
  "returned r = (case r of Inl e \<Rightarrow> Inl e | Inr i \<Rightarrow> Inr (Some i))"

text \<open>
  A \<open>for\<close> loop over a value: the elements of a list, the characters of a string,
  \<open>TypeError\<close> for a value that is not iterable.
\<close>

fun py_iter :: "pyval \<Rightarrow> error + pyval list" where
  "py_iter (PList xs) = Inr xs"
| "py_iter (PStr s) = Inr (map (\<lambda>ch. PStr [ch]) s)"
| "py_iter v = Inl TypeError"

text \<open>
  Lines 35 to 55 of \<open>blacklist\<close>: the name a \<open>Call\<close> node is matched under.
  \<open>call_args[0]\<close> raises \<open>IndexError\<close> on an empty list and
  \<open>call_keywords["name"]\<close> raises \<open>KeyError\<close> without the key.
\<close>

definition call_name :: "Context \<Rightarrow> expr \<Rightarrow> expr list \<Rightarrow> error + pyval" where
  "call_name c func args =
     (if is_instance func ''Name'' \<and> (case func of Name i \<Rightarrow> i = ''__import__'' | _ \<Rightarrow> False)
      then
        (case args of
           [] \<Rightarrow> Inr (PStr [])
         | a # _ \<Rightarrow>
             if is_instance a ''Str''
             then (case a of Str s \<Rightarrow> Inr (PStr s) | _ \<Rightarrow> Inl AttributeError)
             else Inr (PStr ''UNKNOWN''))
      else
        if call_function_name_qual c \<in> set [''importlib.import_module'', ''importlib.__import__'']
        then
          if call_args_count c > 0
          then (case call_args c of [] \<Rightarrow> Inl IndexError | v # _ \<Rightarrow> Inr v)
          else (case call_keywords c ''name'' of None \<Rightarrow> Inl KeyError | Some v \<Rightarrow> Inr v)
        else Inr (PStr (call_function_name_qual c)))"

text \<open>
  \<open>fnmatch.fnmatch\<close> belongs to the Python library and is a parameter \<open>fnm\<close> of the
  matcher, applied to the name and the pattern. It raises \<open>TypeError\<close> unless both are
  strings.
\<close>

definition py_fnmatch ::
  "(string \<Rightarrow> string \<Rightarrow> bool) \<Rightarrow> pyval \<Rightarrow> pyval \<Rightarrow> error + bool" where
  "py_fnmatch fnm nm qn =
     (case nm of
        PStr n \<Rightarrow> (case qn of PStr q \<Rightarrow> Inr (fnm n q) | _ \<Rightarrow> Inl TypeError)
      | _ \<Rightarrow> Inl TypeError)"

text \<open>Lines 57 to 59: the loop over one rule's patterns, for a \<open>Call\<close> node.\<close>

fun call_qualnames ::
  "(string \<Rightarrow> string \<Rightarrow> bool) \<Rightarrow> pyval \<Rightarrow> pyval \<Rightarrow> (string \<rightharpoonup> pyval) \<Rightarrow> pyval list
     \<Rightarrow> error + issue option" where
  "call_qualnames fnm NOTSET nm check [] = Inr None"
| "call_qualnames fnm NOTSET nm check (qn # qns) =
     (if nm \<noteq> PNone
      then (case py_fnmatch fnm nm qn of
              Inl e \<Rightarrow> Inl e
            | Inr b \<Rightarrow>
                if b then returned (report_issue NOTSET check nm)
                else call_qualnames fnm NOTSET nm check qns)
      else call_qualnames fnm NOTSET nm check qns)"

text \<open>Lines 56 to 59: the loop over the rules, for a \<open>Call\<close> node.\<close>

fun call_checks ::
  "(string \<Rightarrow> string \<Rightarrow> bool) \<Rightarrow> pyval \<Rightarrow> pyval \<Rightarrow> (string \<rightharpoonup> pyval) list
     \<Rightarrow> error + issue option" where
  "call_checks fnm NOTSET nm [] = Inr None"
| "call_checks fnm NOTSET nm (check # checks) =
     (case check ''qualnames'' of
        None \<Rightarrow> Inl KeyError
      | Some q \<Rightarrow>
          (case py_iter q of
             Inl e \<Rightarrow> Inl e
           | Inr qns \<Rightarrow>
               (case call_qualnames fnm NOTSET nm check qns of
                  Inl e \<Rightarrow> Inl e
                | Inr (Some i) \<Rightarrow> Inr (Some i)
                | Inr None \<Rightarrow> call_checks fnm NOTSET nm checks)))"

text \<open>
  Lines 69 to 71: the loop over one rule's patterns, for one imported name.
  \<open>str.startswith\<close> is the prefix test; it raises \<open>TypeError\<close> on a pattern that is
  not a string.
\<close>

fun import_qualnames ::
  "pyval \<Rightarrow> string \<Rightarrow> import_alias \<Rightarrow> (string \<rightharpoonup> pyval) \<Rightarrow> pyval list
     \<Rightarrow> error + issue option" where
  "import_qualnames NOTSET pfx a check [] = Inr None"
| "import_qualnames NOTSET pfx a check (qn # qns) =
     (case qn of
        PStr q \<Rightarrow>
          if prefix q (pfx @ name a)
          then returned (report_issue NOTSET check (PStr (name a)))
          else import_qualnames NOTSET pfx a check qns
      | _ \<Rightarrow> Inl TypeError)"

text \<open>Lines 68 to 71: the loop over the imported names, for one rule.\<close>

fun import_names ::
  "pyval \<Rightarrow> string \<Rightarrow> (string \<rightharpoonup> pyval) \<Rightarrow> import_alias list \<Rightarrow> error + issue option" where
  "import_names NOTSET pfx check [] = Inr None"
| "import_names NOTSET pfx check (a # as) =
     (case check ''qualnames'' of
        None \<Rightarrow> Inl KeyError
      | Some q \<Rightarrow>
          (case py_iter q of
             Inl e \<Rightarrow> Inl e
           | Inr qns \<Rightarrow>
               (case import_qualnames NOTSET pfx a check qns of
                  Inl e \<Rightarrow> Inl e
                | Inr (Some i) \<Rightarrow> Inr (Some i)
                | Inr None \<Rightarrow> import_names NOTSET pfx check as)))"

text \<open>Lines 67 to 71: the loop over the rules, for an import node.\<close>

fun import_checks ::
  "pyval \<Rightarrow> string \<Rightarrow> import_alias list \<Rightarrow> (string \<rightharpoonup> pyval) list \<Rightarrow> error + issue option" where
  "import_checks NOTSET pfx names [] = Inr None"
| "import_checks NOTSET pfx names (check # checks) =
     (case import_names NOTSET pfx check names of
        Inl e \<Rightarrow> Inl e
      | Inr (Some i) \<Rightarrow> Inr (Some i)
      | Inr None \<Rightarrow> import_checks NOTSET pfx names checks)"

text \<open>
  \<open>blacklist\<close>. The configuration maps a node type to its rules in loaded order;
  \<open>blacklists[node_type]\<close> raises \<open>KeyError\<close> without the key. A \<open>Call\<close> node whose
  loops end without a match falls through to the import test, which its type fails, and
  the function returns \<open>None\<close>.
\<close>

definition blacklist ::
  "(string \<Rightarrow> string \<Rightarrow> bool) \<Rightarrow> pyval \<Rightarrow> Context \<Rightarrow> (string \<rightharpoonup> (string \<rightharpoonup> pyval) list)
     \<Rightarrow> error + issue option" where
  "blacklist fnm NOTSET c config =
     (case node c of
        Call func args \<Rightarrow>
          (case call_name c func args of
             Inl e \<Rightarrow> Inl e
           | Inr nm \<Rightarrow>
               (case config ''Call'' of
                  None \<Rightarrow> Inl KeyError
                | Some checks \<Rightarrow> call_checks fnm NOTSET nm checks))
      | Import names \<Rightarrow>
          (case config ''Import'' of
             None \<Rightarrow> Inl KeyError
           | Some checks \<Rightarrow> import_checks NOTSET [] names checks)
      | ImportFrom module names \<Rightarrow>
          (case config ''ImportFrom'' of
             None \<Rightarrow> Inl KeyError
           | Some checks \<Rightarrow>
               import_checks NOTSET (case module of None \<Rightarrow> [] | Some m \<Rightarrow> m @ ''.'')
                 names checks)
      | OtherNode \<Rightarrow> Inr None)"

section \<open>The exit status\<close>

text \<open>Python's list indexing: a negative index counts from the end.\<close>

definition py_index :: "'a list \<Rightarrow> int \<Rightarrow> error + 'a" where
  "py_index xs i =
     (if 0 \<le> i \<and> i < int (length xs) then Inr (xs ! nat i)
      else if i < 0 \<and> - int (length xs) \<le> i then Inr (xs ! nat (int (length xs) + i))
      else Inl IndexError)"

text \<open>The command-line options the last statements of \<open>main\<close> read.\<close>

record args =
  args_severity :: int
  args_confidence :: int
  exit_zero :: bool

text \<open>
  The last statements of \<open>main\<close>, lines 512 to 534, after the tests have run. The list
  \<open>constants.RANKING\<close> and the manager's \<open>results_count\<close> are outside the files modelled
  here and are parameters. Writing the reports has no part in the status. The result is
  the status handed to \<open>sys.exit\<close>.
\<close>

definition main_exit_status ::
  "pyval list \<Rightarrow> (pyval \<Rightarrow> pyval \<Rightarrow> int) \<Rightarrow> args \<Rightarrow> error + int" where
  "main_exit_status RANKING results_count a =
     (case py_index RANKING (args_severity a - 1) of
        Inl e \<Rightarrow> Inl e
      | Inr sev_level \<Rightarrow>
          (case py_index RANKING (args_confidence a - 1) of
             Inl e \<Rightarrow> Inl e
           | Inr conf_level \<Rightarrow>
               if results_count sev_level conf_level > 0 \<and> \<not> exit_zero a
               then Inr 1 else Inr 0))"

section \<open>A matcher for the examples\<close>

text \<open>
  A glob matcher to put in the place of the library's \<open>fnmatch\<close> in the examples:
  \<open>*\<close> matches any run of characters, \<open>?\<close> any one character, every other character
  itself, and the whole name must match. The patterns of the examples use no bracket.
  The name comes first, the pattern second.
\<close>

fun glob :: "string \<Rightarrow> string \<Rightarrow> bool" where
  "glob [] [] = True"
| "glob (c # cs) [] = False"
| "glob [] (p # ps) = (p = CHR ''*'' \<and> glob [] ps)"
| "glob (c # cs) (p # ps) =
     (if p = CHR ''*'' then glob (c # cs) ps \<or> glob cs (p # ps)
      else (p = CHR ''?'' \<or> p = c) \<and> glob cs ps)"

section \<open>Well-formed rules\<close>

text \<open>
  A rule as the configuration contract has it: a list of string patterns under
  \<open>qualnames\<close> and a string under \<open>message\<close>. \<open>quals\<close> reads the string patterns of
  a rule.
\<close>

fun is_str :: "pyval \<Rightarrow> bool" where
  "is_str (PStr s) = True"
| "is_str v = False"

fun strs :: "pyval list \<Rightarrow> string list" where
  "strs [] = []"
| "strs (PStr s # vs) = s # strs vs"
| "strs (v # vs) = strs vs"

definition quals :: "(string \<rightharpoonup> pyval) \<Rightarrow> string list" where
  "quals k = (case k ''qualnames'' of Some (PList qs) \<Rightarrow> strs qs | _ \<Rightarrow> [])"

definition wf_check :: "(string \<rightharpoonup> pyval) \<Rightarrow> bool" where
  "wf_check k =
     ((case k ''qualnames'' of Some (PList qs) \<Rightarrow> list_all is_str qs | _ \<Rightarrow> False)
      \<and> (case k ''message'' of Some (PStr m) \<Rightarrow> True | _ \<Rightarrow> False))"

text \<open>The rules the configuration holds for a node's type; none without the key.\<close>

definition rules_for ::
  "(string \<rightharpoonup> (string \<rightharpoonup> pyval) list) \<Rightarrow> node \<Rightarrow> (string \<rightharpoonup> pyval) list" where
  "rules_for config nd =
     (case nd of
        Call func args \<Rightarrow> (case config ''Call'' of None \<Rightarrow> [] | Some ks \<Rightarrow> ks)
      | Import names \<Rightarrow> (case config ''Import'' of None \<Rightarrow> [] | Some ks \<Rightarrow> ks)
      | ImportFrom module names \<Rightarrow> (case config ''ImportFrom'' of None \<Rightarrow> [] | Some ks \<Rightarrow> ks)
      | OtherNode \<Rightarrow> [])"

section \<open>Example inputs\<close>

text \<open>
  A context at a call: the callee and argument nodes, the resolved qualified and
  unqualified names, the resolved positional values, the keyword arguments and the
  modules the file imports.
\<close>

definition example_call ::
  "expr \<Rightarrow> expr list \<Rightarrow> string \<Rightarrow> string \<Rightarrow> pyval list \<Rightarrow> (string \<times> pyval) list \<Rightarrow> string list
     \<Rightarrow> Context" where
  "example_call func args qual nm vals kws imported =
     \<lparr>node = Call func args, call_function_name_qual = qual, call_function_name = nm,
      call_args = vals, call_args_count = length args, call_keywords = map_of kws,
      is_module_imported_like = (\<lambda>m. m \<in> set imported),
      get_lineno_for_call_arg = (\<lambda>a. None)\<rparr>"

text \<open>A context at an import statement.\<close>

definition example_import :: "node \<Rightarrow> Context" where
  "example_import nd =
     \<lparr>node = nd, call_function_name_qual = [], call_function_name = [],
      call_args = [], call_args_count = 0, call_keywords = map_of [],
      is_module_imported_like = (\<lambda>m. False),
      get_lineno_for_call_arg = (\<lambda>a. None)\<rparr>"

text \<open>Three rules; the first declares a confidence of its own.\<close>

definition rule_pickle_any :: "string \<rightharpoonup> pyval" where
  "rule_pickle_any = map_of
     [(''id'', PStr ''B301''), (''qualnames'', PList [PStr ''pickle.*'', PStr ''cPickle.*'']),
      (''message'', PStr ''Pickle call {name}: {name} is unsafe.''),
      (''level'', PStr ''LOW''), (''confidence'', PStr ''LOW''), (''cwe'', PInt 502)]"

definition rule_pickle_loads :: "string \<rightharpoonup> pyval" where
  "rule_pickle_loads = map_of
     [(''id'', PStr ''B399''), (''qualnames'', PList [PStr ''pickle.loads'']),
      (''message'', PStr ''Second rule for {name}.'')]"

definition rule_yaml :: "string \<rightharpoonup> pyval" where
  "rule_yaml = map_of
     [(''id'', PStr ''B506''), (''qualnames'', PList [PStr ''yaml.load'']),
      (''message'', PStr ''Use of unsafe yaml load.'')]"

text \<open>The call \<open>pickle.loads(data)\<close>.\<close>

definition call_pickle_loads :: Context where
  "call_pickle_loads =
     example_call OtherExpr [OtherExpr] ''pickle.loads'' ''loads'' [PStr ''data''] [] []"

text \<open>A well-formed rule with the given patterns and message and no other key.\<close>

definition example_rule :: "string list \<Rightarrow> string \<Rightarrow> (string \<rightharpoonup> pyval)" where
  "example_rule qs m = map_of [(''qualnames'', PList (map PStr qs)), (''message'', PStr m)]"

text \<open>The call \<open>os.system(cmd)\<close>.\<close>

definition call_os_system :: Context where
  "call_os_system =
     example_call OtherExpr [OtherExpr] ''os.system'' ''system'' [PStr ''cmd''] [] []"

text \<open>The statement \<open>import os.path as p\<close>.\<close>

definition import_os_path_as_p :: Context where
  "import_os_path_as_p = example_import (Import [\<lparr>name = ''os.path'', asname = Some ''p''\<rparr>])"

text \<open>The statement \<open>from os import path\<close>.\<close>

definition from_os_import_path :: Context where
  "from_os_import_path =
     example_import (ImportFrom (Some ''os'') [\<lparr>name = ''path'', asname = None\<rparr>])"

text \<open>The call \<open>requests.get(url, ...)\<close> with the given keyword arguments.\<close>

definition requests_get :: "(string \<times> pyval) list \<Rightarrow> Context" where
  "requests_get kws =
     example_call OtherExpr [OtherExpr] ''requests.get'' ''get'' [PStr ''url''] kws []"

text \<open>The call \<open>my_requests_util.get(url)\<close>.\<close>

definition my_requests_util_get :: Context where
  "my_requests_util_get =
     example_call OtherExpr [OtherExpr] ''my_requests_util.get'' ''get'' [PStr ''url''] [] []"

text \<open>
  The call \<open>ssh_client.set_missing_host_key_policy(...)\<close> with the given resolved
  positional values and keyword arguments, in a file importing the given modules.
\<close>

definition set_policy_call :: "pyval list \<Rightarrow> (string \<times> pyval) list \<Rightarrow> string list \<Rightarrow> Context" where
  "set_policy_call vals kws imported =
     example_call OtherExpr (map (\<lambda>v. OtherExpr) vals)
       ''ssh_client.set_missing_host_key_policy'' ''set_missing_host_key_policy''
       vals kws imported"

text \<open>The call \<open>importlib.import_module()\<close>.\<close>

definition call_import_module_no_args :: Context where
  "call_import_module_no_args =
     example_call OtherExpr [] ''importlib.import_module'' ''import_module'' [] [] []"

text \<open>The call \<open>__import__()\<close>.\<close>

definition call_dunder_import_no_args :: Context where
  "call_dunder_import_no_args =
     example_call (Name ''__import__'') [] ''__import__'' ''__import__'' [] [] []"

text \<open>A ranking list and a manager whose count is the same under every filter.\<close>

definition example_RANKING :: "pyval list" where
  "example_RANKING = [PStr ''UNDEFINED'', PStr ''LOW'', PStr ''MEDIUM'', PStr ''HIGH'']"

fun example_results_count :: "int \<Rightarrow> pyval \<Rightarrow> pyval \<Rightarrow> int" where
  "example_results_count n sev conf = n"

text \<open>The statement \<open>from os import system\<close>.\<close>

definition from_os_import_system :: Context where
  "from_os_import_system =
     example_import (ImportFrom (Some ''os'') [\<lparr>name = ''system'', asname = None\<rparr>])"

section \<open>The loops of the matcher on well-formed rules\<close>

lemmas ex_defs = rule_pickle_any_def rule_pickle_loads_def rule_yaml_def call_pickle_loads_def
  example_call_def example_import_def

lemma returned_simps [simp]:
  "returned (Inl e) = Inl e" "returned (Inr i) = Inr (Some i)"
  by (simp_all add: returned_def)

lemma strs_map_PStr: "strs (map PStr qs) = qs"
  by (induction qs) auto

lemma list_all_is_str: "list_all is_str vs \<Longrightarrow> vs = map PStr (strs vs)"
proof (induction vs)
  case Nil
  then show ?case by simp
next
  case (Cons v vs)
  then show ?case by (cases v) auto
qed

lemma wf_checkD:
  assumes "wf_check k"
  shows "k ''qualnames'' = Some (PList (map PStr (quals k)))"
    and "\<exists>m. k ''message'' = Some (PStr m)"
  using assms list_all_is_str
  by (auto simp: wf_check_def quals_def split: option.splits pyval.splits)

lemma report_issue_wf:
  "wf_check k \<Longrightarrow> \<exists>i. report_issue NOTSET k (PStr n) = Inr i"
  by (auto simp: report_issue_def dest!: wf_checkD(2))

lemma call_qualnames_strs:
  "call_qualnames fnm NOTSET (PStr n) k (map PStr qs) =
     (if \<exists>q\<in>set qs. fnm n q then returned (report_issue NOTSET k (PStr n)) else Inr None)"
  by (induction qs) (auto simp: py_fnmatch_def)

lemma call_checks_find:
  "list_all wf_check checks \<Longrightarrow>
   call_checks fnm NOTSET (PStr n) checks =
     (case find (\<lambda>k. \<exists>q\<in>set (quals k). fnm n q) checks of
        None \<Rightarrow> Inr None
      | Some k \<Rightarrow> returned (report_issue NOTSET k (PStr n)))"
proof (induction checks)
  case Nil
  then show ?case by simp
next
  case (Cons k checks)
  then have wf: "wf_check k" and rest: "list_all wf_check checks" by simp_all
  obtain i where i: "report_issue NOTSET k (PStr n) = Inr i"
    using report_issue_wf [OF wf] by blast
  show ?case
    using Cons.IH [OF rest] wf_checkD(1) [OF wf] i
    by (simp add: call_qualnames_strs)
qed

lemma find_append_first:
  "\<forall>x\<in>set xs. \<not> P x \<Longrightarrow> P y \<Longrightarrow> find P (xs @ y # ys) = Some y"
  by (induction xs) auto

lemma blacklist_Call_find:
  assumes "node c = Call func args" and "call_name c func args = Inr (PStr n)"
    and "config ''Call'' = Some checks" and "list_all wf_check checks"
  shows "blacklist fnm NOTSET c config =
     (case find (\<lambda>k. \<exists>q\<in>set (quals k). fnm n q) checks of
        None \<Rightarrow> Inr None
      | Some k \<Rightarrow> returned (report_issue NOTSET k (PStr n)))"
  using assms by (simp add: blacklist_def call_checks_find)

section \<open>First match wins\<close>

text \<open>
  Claim C1. At a \<open>Call\<close> node whose name resolves to the string \<open>n\<close>, with well-formed
  rules \<open>pre @ r # post\<close> for the node type, where no pattern of a rule in \<open>pre\<close> matches
  \<open>n\<close> and some pattern of \<open>r\<close> does, \<open>blacklist\<close> returns one issue, the one
  \<open>report_issue\<close> builds from \<open>r\<close>, whatever rules of \<open>post\<close> match as well. The result
  type holds at most one issue.
\<close>

theorem blacklist_first_match_wins:
  assumes nd: "node c = Call func args"
    and nm: "call_name c func args = Inr (PStr n)"
    and cfg: "config ''Call'' = Some (pre @ r # post)"
    and wf: "list_all wf_check (pre @ r # post)"
    and pre: "\<forall>k\<in>set pre. \<forall>q\<in>set (quals k). \<not> fnm n q"
    and r: "\<exists>q\<in>set (quals r). fnm n q"
  shows "\<exists>i. report_issue NOTSET r (PStr n) = Inr i
           \<and> blacklist fnm NOTSET c config = Inr (Some i)"
proof -
  have "find (\<lambda>k. \<exists>q\<in>set (quals k). fnm n q) (pre @ r # post) = Some r"
    using pre r by (intro find_append_first) auto
  then have res: "blacklist fnm NOTSET c config = returned (report_issue NOTSET r (PStr n))"
    using blacklist_Call_find [where config = config and fnm = fnm and NOTSET = NOTSET,
        OF nd nm cfg wf]
    by simp
  from wf have "wf_check r" by simp
  then obtain i where "report_issue NOTSET r (PStr n) = Inr i"
    using report_issue_wf by blast
  with res show ?thesis by simp
qed

text \<open>
  The call \<open>pickle.loads(data)\<close> under three rules, of which the second and the third
  match: the issue is the second rule's.
\<close>

theorem blacklist_first_match_wins_witness:
  "blacklist glob (PInt 0) call_pickle_loads
     (map_of [(''Call'', [rule_yaml, rule_pickle_any, rule_pickle_loads])])
   = Inr (Some \<lparr>severity = PStr ''LOW'', confidence = PStr ''HIGH'', cwe = Some (PInt 502),
        text' = ''Pickle call pickle.loads: pickle.loads is unsafe.'',
        ident = Some (PStr ''pickle.loads''), lineno = None,
        test_id = Some (PStr ''B301'')\<rparr>)"
proof -
  let ?cfg = "map_of [(''Call'', [rule_yaml, rule_pickle_any, rule_pickle_loads])]"
  have h1: "node call_pickle_loads = Call OtherExpr [OtherExpr]"
    by (simp add: ex_defs)
  have h2: "call_name call_pickle_loads OtherExpr [OtherExpr] = Inr (PStr ''pickle.loads'')"
    by (simp add: ex_defs call_name_def)
  have h3: "?cfg ''Call'' = Some ([rule_yaml] @ rule_pickle_any # [rule_pickle_loads])"
    by simp
  have h4: "list_all wf_check ([rule_yaml] @ rule_pickle_any # [rule_pickle_loads])"
    by (simp add: ex_defs wf_check_def)
  have h5: "\<forall>k\<in>set [rule_yaml]. \<forall>q\<in>set (quals k). \<not> glob ''pickle.loads'' q"
    by (simp add: ex_defs quals_def)
  have h6: "\<exists>q\<in>set (quals rule_pickle_any). glob ''pickle.loads'' q"
    by (simp add: ex_defs quals_def)
  from blacklist_first_match_wins [where config = ?cfg and fnm = glob and NOTSET = "PInt 0",
      OF h1 h2 h3 h4 h5 h6]
  show ?thesis
    by (simp add: report_issue_def dict_get_def rule_pickle_any_def)
qed

lemma import_qualnames_strs:
  "import_qualnames NOTSET pfx a k (map PStr qs) =
     (if \<exists>q\<in>set qs. prefix q (pfx @ name a)
      then returned (report_issue NOTSET k (PStr (name a))) else Inr None)"
  by (induction qs) auto

lemma import_names_find:
  "wf_check k \<Longrightarrow>
   import_names NOTSET pfx k names =
     (case find (\<lambda>a. \<exists>q\<in>set (quals k). prefix q (pfx @ name a)) names of
        None \<Rightarrow> Inr None
      | Some a \<Rightarrow> returned (report_issue NOTSET k (PStr (name a))))"
proof (induction names)
  case Nil
  then show ?case by simp
next
  case (Cons a names)
  obtain i where i: "report_issue NOTSET k (PStr (name a)) = Inr i"
    using report_issue_wf [OF Cons.prems] by blast
  show ?case
    using Cons.IH [OF Cons.prems] wf_checkD(1) [OF Cons.prems] i
    by (simp add: import_qualnames_strs)
qed

lemma import_names_issue_iff:
  assumes "wf_check k"
  shows "(\<exists>i. import_names NOTSET pfx k names = Inr (Some i))
           = (\<exists>a\<in>set names. \<exists>q\<in>set (quals k). prefix q (pfx @ name a))"
    and "(import_names NOTSET pfx k names = Inr None)
           = (\<not> (\<exists>a\<in>set names. \<exists>q\<in>set (quals k). prefix q (pfx @ name a)))"
proof -
  let ?P = "\<lambda>a. \<exists>q\<in>set (quals k). prefix q (pfx @ name a)"
  have both: "((\<exists>i. import_names NOTSET pfx k names = Inr (Some i)) = (\<exists>a\<in>set names. ?P a))
      \<and> ((import_names NOTSET pfx k names = Inr None) = (\<not> (\<exists>a\<in>set names. ?P a)))"
  proof (cases "find ?P names")
    case None
    then have no: "\<not> (\<exists>a\<in>set names. ?P a)" by (auto simp: find_None_iff)
    from None have "import_names NOTSET pfx k names = Inr None"
      by (simp add: import_names_find [OF assms])
    with no show ?thesis by simp
  next
    case (Some a)
    then have yes: "\<exists>a\<in>set names. ?P a" by (auto simp: find_Some_iff)
    obtain i where "report_issue NOTSET k (PStr (name a)) = Inr i"
      using report_issue_wf [OF assms] by blast
    with Some have "import_names NOTSET pfx k names = Inr (Some i)"
      by (simp add: import_names_find [OF assms])
    with yes show ?thesis by simp
  qed
  from both show "(\<exists>i. import_names NOTSET pfx k names = Inr (Some i)) = (\<exists>a\<in>set names. ?P a)"
    by blast
  from both show "(import_names NOTSET pfx k names = Inr None) = (\<not> (\<exists>a\<in>set names. ?P a))"
    by blast
qed

lemma import_checks_issue_iff:
  assumes "list_all wf_check checks"
  shows "((\<exists>i. import_checks NOTSET pfx names checks = Inr (Some i))
            = (\<exists>k\<in>set checks. \<exists>a\<in>set names. \<exists>q\<in>set (quals k). prefix q (pfx @ name a)))
       \<and> ((import_checks NOTSET pfx names checks = Inr None)
            = (\<not> (\<exists>k\<in>set checks. \<exists>a\<in>set names. \<exists>q\<in>set (quals k). prefix q (pfx @ name a))))"
  using assms
proof (induction checks)
  case Nil
  then show ?case by simp
next
  case (Cons k checks)
  then have wf: "wf_check k" and rest: "list_all wf_check checks" by simp_all
  note nm = import_names_issue_iff [OF wf, of NOTSET pfx names]
  show ?case
  proof (cases "\<exists>a\<in>set names. \<exists>q\<in>set (quals k). prefix q (pfx @ name a)")
    case True
    then obtain i where "import_names NOTSET pfx k names = Inr (Some i)"
      using nm(1) by blast
    with True show ?thesis by auto
  next
    case False
    then have "import_names NOTSET pfx k names = Inr None"
      using nm(2) by blast
    with False Cons.IH [OF rest] show ?thesis by simp
  qed
qed

lemma call_checks_issue_iff:
  assumes "list_all wf_check checks"
  shows "((\<exists>i. call_checks fnm NOTSET (PStr n) checks = Inr (Some i))
            = (\<exists>k\<in>set checks. \<exists>q\<in>set (quals k). fnm n q))
       \<and> ((call_checks fnm NOTSET (PStr n) checks = Inr None)
            = (\<not> (\<exists>k\<in>set checks. \<exists>q\<in>set (quals k). fnm n q)))"
proof (cases "find (\<lambda>k. \<exists>q\<in>set (quals k). fnm n q) checks")
  case None
  then have no: "\<not> (\<exists>k\<in>set checks. \<exists>q\<in>set (quals k). fnm n q)"
    by (auto simp: find_None_iff)
  from None have "call_checks fnm NOTSET (PStr n) checks = Inr None"
    by (simp add: call_checks_find [OF assms])
  with no show ?thesis by simp
next
  case (Some k)
  then have k: "k \<in> set checks" and yes: "\<exists>k\<in>set checks. \<exists>q\<in>set (quals k). fnm n q"
    by (auto simp: find_Some_iff)
  with assms have "wf_check k" by (simp add: list_all_iff)
  then obtain i where "report_issue NOTSET k (PStr n) = Inr i"
    using report_issue_wf by blast
  with Some have "call_checks fnm NOTSET (PStr n) checks = Inr (Some i)"
    by (simp add: call_checks_find [OF assms])
  with yes show ?thesis by simp
qed

lemma quals_example_rule [simp]: "quals (example_rule qs m) = qs"
  by (simp add: quals_def example_rule_def strs_map_PStr)

lemma wf_example_rule [simp]: "wf_check (example_rule qs m)"
  by (simp add: wf_check_def example_rule_def list_all_iff)

lemma report_issue_example_rule:
  "report_issue NOTSET (example_rule qs m) (PStr n) =
     Inr \<lparr>severity = PStr ''MEDIUM'', confidence = PStr ''HIGH'', cwe = Some NOTSET,
          text' = replace m ''{name}'' n, ident = Some (PStr n), lineno = None,
          test_id = Some (PStr ''LEGACY'')\<rparr>"
  by (simp add: report_issue_def dict_get_def example_rule_def)

lemma import_checks_find:
  assumes "list_all wf_check checks"
  shows "import_checks NOTSET pfx names checks =
     (case find (\<lambda>k. \<exists>a\<in>set names. \<exists>q\<in>set (quals k). prefix q (pfx @ name a)) checks of
        None \<Rightarrow> Inr None
      | Some k \<Rightarrow> import_names NOTSET pfx k names)"
  using assms
proof (induction checks)
  case Nil
  then show ?case by simp
next
  case (Cons k checks)
  then have wf: "wf_check k" and rest: "list_all wf_check checks" by simp_all
  note nm = import_names_issue_iff [OF wf, of NOTSET pfx names]
  show ?case
  proof (cases "\<exists>a\<in>set names. \<exists>q\<in>set (quals k). prefix q (pfx @ name a)")
    case True
    then obtain i where "import_names NOTSET pfx k names = Inr (Some i)"
      using nm(1) by blast
    with True show ?thesis by simp
  next
    case False
    then have "import_names NOTSET pfx k names = Inr None"
      using nm(2) by blast
    with False Cons.IH [OF rest] show ?thesis by simp
  qed
qed

lemma import_qualnames_name_only:
  "name a = name b \<Longrightarrow>
   import_qualnames NOTSET pfx a k qns = import_qualnames NOTSET pfx b k qns"
  by (induction qns) (auto split: pyval.splits)

lemma import_names_name_only:
  "map name as = map name bs \<Longrightarrow>
   import_names NOTSET pfx k as = import_names NOTSET pfx k bs"
proof (induction as arbitrary: bs)
  case Nil
  then show ?case by simp
next
  case (Cons a as)
  then obtain b bs' where bs: "bs = b # bs'" and ab: "name a = name b"
    and rest: "map name as = map name bs'"
    by (cases bs) auto
  show ?case
    unfolding bs
    using Cons.IH [OF rest] import_qualnames_name_only [OF ab, of NOTSET pfx k]
    by (simp split: option.splits sum.splits)
qed

lemma import_checks_name_only:
  "map name as = map name bs \<Longrightarrow>
   import_checks NOTSET pfx as checks = import_checks NOTSET pfx bs checks"
proof (induction checks)
  case Nil
  then show ?case by simp
next
  case (Cons k checks)
  have "import_names NOTSET pfx k as = import_names NOTSET pfx k bs"
    using Cons.prems by (rule import_names_name_only)
  with Cons.IH [OF Cons.prems] show ?case
    by (simp split: sum.splits option.splits)
qed

section \<open>Glob equality for calls, prefix for imports\<close>

text \<open>
  Claim C3. On well-formed rules: at a \<open>Call\<close> node whose name resolves to the string
  \<open>n\<close>, \<open>blacklist\<close> returns an issue exactly when the library's matcher accepts the
  whole name \<open>n\<close> against some pattern of some rule, and returns \<open>None\<close> otherwise; at an
  \<open>Import\<close> node it returns an issue exactly when some pattern is a string prefix of
  some imported name; at an \<open>ImportFrom\<close> node exactly when some pattern is a string
  prefix of the module, a dot and an imported name (of the imported name alone when the
  statement has no module). The library's matcher has no part in the import tests.
\<close>

theorem blacklist_match_policy:
  assumes wf: "list_all wf_check checks"
  shows "(node c = Call func args \<longrightarrow> call_name c func args = Inr (PStr n)
            \<longrightarrow> config ''Call'' = Some checks
            \<longrightarrow> ((\<exists>i. blacklist fnm NOTSET c config = Inr (Some i))
                   = (\<exists>k\<in>set checks. \<exists>q\<in>set (quals k). fnm n q))
              \<and> ((blacklist fnm NOTSET c config = Inr None)
                   = (\<not> (\<exists>k\<in>set checks. \<exists>q\<in>set (quals k). fnm n q))))
       \<and> (node c = Import names \<longrightarrow> config ''Import'' = Some checks
            \<longrightarrow> ((\<exists>i. blacklist fnm NOTSET c config = Inr (Some i))
                   = (\<exists>k\<in>set checks. \<exists>a\<in>set names. \<exists>q\<in>set (quals k). prefix q (name a)))
              \<and> ((blacklist fnm NOTSET c config = Inr None)
                   = (\<not> (\<exists>k\<in>set checks. \<exists>a\<in>set names. \<exists>q\<in>set (quals k). prefix q (name a)))))
       \<and> (node c = ImportFrom module names \<longrightarrow> config ''ImportFrom'' = Some checks
            \<longrightarrow> ((\<exists>i. blacklist fnm NOTSET c config = Inr (Some i))
                   = (\<exists>k\<in>set checks. \<exists>a\<in>set names. \<exists>q\<in>set (quals k).
                        prefix q ((case module of None \<Rightarrow> [] | Some m \<Rightarrow> m @ ''.'') @ name a)))
              \<and> ((blacklist fnm NOTSET c config = Inr None)
                   = (\<not> (\<exists>k\<in>set checks. \<exists>a\<in>set names. \<exists>q\<in>set (quals k).
                        prefix q ((case module of None \<Rightarrow> [] | Some m \<Rightarrow> m @ ''.'') @ name a)))))"
proof (intro conjI impI)
  assume "node c = Call func args" "call_name c func args = Inr (PStr n)"
    "config ''Call'' = Some checks"
  then have eq: "blacklist fnm NOTSET c config = call_checks fnm NOTSET (PStr n) checks"
    by (simp add: blacklist_def)
  show "(\<exists>i. blacklist fnm NOTSET c config = Inr (Some i))
          = (\<exists>k\<in>set checks. \<exists>q\<in>set (quals k). fnm n q)"
    unfolding eq using call_checks_issue_iff [OF wf, of fnm NOTSET n] by blast
  show "(blacklist fnm NOTSET c config = Inr None)
          = (\<not> (\<exists>k\<in>set checks. \<exists>q\<in>set (quals k). fnm n q))"
    unfolding eq using call_checks_issue_iff [OF wf, of fnm NOTSET n] by blast
next
  assume "node c = Import names" "config ''Import'' = Some checks"
  then have eq: "blacklist fnm NOTSET c config = import_checks NOTSET [] names checks"
    by (simp add: blacklist_def)
  show "(\<exists>i. blacklist fnm NOTSET c config = Inr (Some i))
          = (\<exists>k\<in>set checks. \<exists>a\<in>set names. \<exists>q\<in>set (quals k). prefix q (name a))"
    unfolding eq using import_checks_issue_iff [OF wf, of NOTSET "[]" names] by simp
  show "(blacklist fnm NOTSET c config = Inr None)
          = (\<not> (\<exists>k\<in>set checks. \<exists>a\<in>set names. \<exists>q\<in>set (quals k). prefix q (name a)))"
    unfolding eq using import_checks_issue_iff [OF wf, of NOTSET "[]" names] by simp
next
  let ?pfx = "case module of None \<Rightarrow> [] | Some m \<Rightarrow> m @ ''.''"
  assume "node c = ImportFrom module names" "config ''ImportFrom'' = Some checks"
  then have eq: "blacklist fnm NOTSET c config = import_checks NOTSET ?pfx names checks"
    by (simp add: blacklist_def)
  show "(\<exists>i. blacklist fnm NOTSET c config = Inr (Some i))
          = (\<exists>k\<in>set checks. \<exists>a\<in>set names. \<exists>q\<in>set (quals k). prefix q (?pfx @ name a))"
    unfolding eq using import_checks_issue_iff [OF wf, of NOTSET ?pfx names] by blast
  show "(blacklist fnm NOTSET c config = Inr None)
          = (\<not> (\<exists>k\<in>set checks. \<exists>a\<in>set names. \<exists>q\<in>set (quals k). prefix q (?pfx @ name a)))"
    unfolding eq using import_checks_issue_iff [OF wf, of NOTSET ?pfx names] by blast
qed


text \<open>
  With the glob matcher: the pattern \<open>os.*\<close> matches the call \<open>os.system\<close> and the
  pattern \<open>os\<close> does not; the pattern \<open>os\<close> is a prefix of the import \<open>os.path\<close> and
  the pattern \<open>os.*\<close> is not; \<open>from os import path\<close> is tested as \<open>os.path\<close>.
\<close>

theorem blacklist_match_policy_witness:
  "(\<exists>i. blacklist glob (PInt 0) call_os_system
           (map_of [(''Call'', [example_rule [''os.*''] ''Call of {name}'']) ]) = Inr (Some i))
   \<and> blacklist glob (PInt 0) call_os_system
           (map_of [(''Call'', [example_rule [''os''] ''Call of {name}'']) ]) = Inr None
   \<and> (\<exists>i. blacklist glob (PInt 0) import_os_path_as_p
           (map_of [(''Import'', [example_rule [''os''] ''Import of {name}'']) ]) = Inr (Some i))
   \<and> blacklist glob (PInt 0) import_os_path_as_p
           (map_of [(''Import'', [example_rule [''os.*''] ''Import of {name}'']) ]) = Inr None
   \<and> (\<exists>i. blacklist glob (PInt 0) from_os_import_path
           (map_of [(''ImportFrom'', [example_rule [''os.pa''] ''Import of {name}'']) ]) = Inr (Some i))
   \<and> blacklist glob (PInt 0) from_os_import_path
           (map_of [(''ImportFrom'', [example_rule [''path''] ''Import of {name}'']) ]) = Inr None"
proof -
  have nd1: "node call_os_system = Call OtherExpr [OtherExpr]"
    by (simp add: call_os_system_def example_call_def)
  have nm1: "call_name call_os_system OtherExpr [OtherExpr] = Inr (PStr ''os.system'')"
    by (simp add: call_os_system_def example_call_def call_name_def)
  have nd2: "node import_os_path_as_p = Import [\<lparr>name = ''os.path'', asname = Some ''p''\<rparr>]"
    by (simp add: import_os_path_as_p_def example_import_def)
  have nd3: "node from_os_import_path
      = ImportFrom (Some ''os'') [\<lparr>name = ''path'', asname = None\<rparr>]"
    by (simp add: from_os_import_path_def example_import_def)
  have wf: "list_all wf_check [example_rule qs m]" for qs m
    by simp
  have c1: "\<exists>i. blacklist glob (PInt 0) call_os_system
           (map_of [(''Call'', [example_rule [''os.*''] ''Call of {name}'']) ]) = Inr (Some i)"
    using blacklist_match_policy [OF wf, where c = call_os_system and fnm = glob
        and NOTSET = "PInt 0" and func = OtherExpr and args = "[OtherExpr]"
        and n = "''os.system''" and qs1 = "[''os.*'']" and m1 = "''Call of {name}''"
        and config = "map_of [(''Call'', [example_rule [''os.*''] ''Call of {name}'']) ]"]
      nd1 nm1
    by simp
  have c2: "blacklist glob (PInt 0) call_os_system
           (map_of [(''Call'', [example_rule [''os''] ''Call of {name}'']) ]) = Inr None"
    using blacklist_match_policy [OF wf, where c = call_os_system and fnm = glob
        and NOTSET = "PInt 0" and func = OtherExpr and args = "[OtherExpr]"
        and n = "''os.system''" and qs1 = "[''os'']" and m1 = "''Call of {name}''"
        and config = "map_of [(''Call'', [example_rule [''os''] ''Call of {name}'']) ]"]
      nd1 nm1
    by simp
  have c3: "\<exists>i. blacklist glob (PInt 0) import_os_path_as_p
           (map_of [(''Import'', [example_rule [''os''] ''Import of {name}'']) ]) = Inr (Some i)"
    using blacklist_match_policy [OF wf, where c = import_os_path_as_p and fnm = glob
        and NOTSET = "PInt 0" and names = "[\<lparr>name = ''os.path'', asname = Some ''p''\<rparr>]"
        and qs1 = "[''os'']" and m1 = "''Import of {name}''"
        and config = "map_of [(''Import'', [example_rule [''os''] ''Import of {name}'']) ]"]
      nd2
    by simp
  have c4: "blacklist glob (PInt 0) import_os_path_as_p
           (map_of [(''Import'', [example_rule [''os.*''] ''Import of {name}'']) ]) = Inr None"
    using blacklist_match_policy [OF wf, where c = import_os_path_as_p and fnm = glob
        and NOTSET = "PInt 0" and names = "[\<lparr>name = ''os.path'', asname = Some ''p''\<rparr>]"
        and qs1 = "[''os.*'']" and m1 = "''Import of {name}''"
        and config = "map_of [(''Import'', [example_rule [''os.*''] ''Import of {name}'']) ]"]
      nd2
    by simp
  have c5: "\<exists>i. blacklist glob (PInt 0) from_os_import_path
           (map_of [(''ImportFrom'', [example_rule [''os.pa''] ''Import of {name}'']) ]) = Inr (Some i)"
    using blacklist_match_policy [OF wf, where c = from_os_import_path and fnm = glob
        and NOTSET = "PInt 0" and names = "[\<lparr>name = ''path'', asname = None\<rparr>]"
        and module = "Some ''os''"
        and qs1 = "[''os.pa'']" and m1 = "''Import of {name}''"
        and config = "map_of [(''ImportFrom'', [example_rule [''os.pa''] ''Import of {name}'']) ]"]
      nd3
    by simp
  have c6: "blacklist glob (PInt 0) from_os_import_path
           (map_of [(''ImportFrom'', [example_rule [''path''] ''Import of {name}'']) ]) = Inr None"
    using blacklist_match_policy [OF wf, where c = from_os_import_path and fnm = glob
        and NOTSET = "PInt 0" and names = "[\<lparr>name = ''path'', asname = None\<rparr>]"
        and module = "Some ''os''"
        and qs1 = "[''path'']" and m1 = "''Import of {name}''"
        and config = "map_of [(''ImportFrom'', [example_rule [''path''] ''Import of {name}'']) ]"]
      nd3
    by simp
  from c1 c2 c3 c4 c5 c6 show ?thesis by blast
qed


section \<open>The imported name, not its alias\<close>

text \<open>
  Claim C7. At the statement \<open>import n as al\<close>, such as \<open>import os.path as p\<close>, with
  well-formed rules for \<open>Import\<close>: \<open>blacklist\<close> returns the issue of the first rule
  one of whose patterns is a prefix of the module name \<open>n\<close>, built with the name \<open>n\<close>,
  and \<open>None\<close> when there is none; and the result is the same under any other alias.
\<close>

theorem import_alias_not_tested:
  assumes nd: "node c = Import [\<lparr>name = n, asname = al\<rparr>]"
    and cfg: "config ''Import'' = Some checks"
    and wf: "list_all wf_check checks"
  shows "blacklist fnm NOTSET c config =
           (case find (\<lambda>k. \<exists>q\<in>set (quals k). prefix q n) checks of
              None \<Rightarrow> Inr None
            | Some k \<Rightarrow> returned (report_issue NOTSET k (PStr n)))
       \<and> blacklist fnm NOTSET (c\<lparr>node := Import [\<lparr>name = n, asname = al'\<rparr>]\<rparr>) config
           = blacklist fnm NOTSET c config"
proof
  have eq: "blacklist fnm NOTSET c config
      = import_checks NOTSET [] [\<lparr>name = n, asname = al\<rparr>] checks"
    using nd cfg by (simp add: blacklist_def)
  show "blacklist fnm NOTSET c config =
           (case find (\<lambda>k. \<exists>q\<in>set (quals k). prefix q n) checks of
              None \<Rightarrow> Inr None
            | Some k \<Rightarrow> returned (report_issue NOTSET k (PStr n)))"
  proof (cases "find (\<lambda>k. \<exists>q\<in>set (quals k). prefix q n) checks")
    case None
    then show ?thesis
      unfolding eq by (simp add: import_checks_find [OF wf])
  next
    case (Some k)
    then have k: "k \<in> set checks" and m: "\<exists>q\<in>set (quals k). prefix q n"
      by (auto simp: find_Some_iff)
    from k wf have wfk: "wf_check k" by (simp add: list_all_iff)
    have "import_names NOTSET [] k [\<lparr>name = n, asname = al\<rparr>]
        = returned (report_issue NOTSET k (PStr n))"
      using m by (simp add: import_names_find [OF wfk] del: import_names.simps)
    with Some m show ?thesis
      unfolding eq by (simp add: import_checks_find [OF wf] del: import_names.simps)
  qed
  show "blacklist fnm NOTSET (c\<lparr>node := Import [\<lparr>name = n, asname = al'\<rparr>]\<rparr>) config
           = blacklist fnm NOTSET c config"
    using nd cfg
      import_checks_name_only [of "[\<lparr>name = n, asname = al'\<rparr>]" "[\<lparr>name = n, asname = al\<rparr>]"
        NOTSET "[]" checks]
    by (simp add: blacklist_def)
qed

text \<open>
  \<open>import os.path as p\<close>: a rule on \<open>p\<close> does not match, a rule on \<open>os.path\<close> does.
\<close>

theorem import_alias_not_tested_witness:
  "blacklist glob (PInt 0) import_os_path_as_p
     (map_of [(''Import'', [example_rule [''p''] ''Alias {name}'',
                            example_rule [''os.path''] ''Import of {name}''])])
   = Inr (Some \<lparr>severity = PStr ''MEDIUM'', confidence = PStr ''HIGH'', cwe = Some (PInt 0),
        text' = ''Import of os.path'', ident = Some (PStr ''os.path''), lineno = None,
        test_id = Some (PStr ''LEGACY'')\<rparr>)
   \<and> blacklist glob (PInt 0) import_os_path_as_p
       (map_of [(''Import'', [example_rule [''p''] ''Alias {name}''])]) = Inr None"
proof -
  have nd: "node import_os_path_as_p = Import [\<lparr>name = ''os.path'', asname = Some ''p''\<rparr>]"
    by (simp add: import_os_path_as_p_def example_import_def)
  have wf: "list_all wf_check [example_rule [''p''] ''Alias {name}'',
      example_rule [''os.path''] ''Import of {name}'']"
    by simp
  have wf2: "list_all wf_check [example_rule [''p''] ''Alias {name}'']"
    by simp
  have a: "blacklist glob (PInt 0) import_os_path_as_p
     (map_of [(''Import'', [example_rule [''p''] ''Alias {name}'',
                            example_rule [''os.path''] ''Import of {name}''])])
   = Inr (Some \<lparr>severity = PStr ''MEDIUM'', confidence = PStr ''HIGH'', cwe = Some (PInt 0),
        text' = ''Import of os.path'', ident = Some (PStr ''os.path''), lineno = None,
        test_id = Some (PStr ''LEGACY'')\<rparr>)"
    using import_alias_not_tested [where c = import_os_path_as_p and n = "''os.path''"
        and al = "Some ''p''" and fnm = glob and NOTSET = "PInt 0"
        and config = "map_of [(''Import'', [example_rule [''p''] ''Alias {name}'',
                            example_rule [''os.path''] ''Import of {name}''])]",
        OF nd _ wf]
    by (simp add: report_issue_example_rule)
  have b: "blacklist glob (PInt 0) import_os_path_as_p
       (map_of [(''Import'', [example_rule [''p''] ''Alias {name}''])]) = Inr None"
    using import_alias_not_tested [where c = import_os_path_as_p and n = "''os.path''"
        and al = "Some ''p''" and fnm = glob and NOTSET = "PInt 0"
        and config = "map_of [(''Import'', [example_rule [''p''] ''Alias {name}''])]",
        OF nd _ wf2]
    by simp
  from a b show ?thesis by simp
qed

section \<open>The fields of a blacklist issue\<close>

lemma call_qualnames_SomeD:
  "call_qualnames fnm NOTSET nm k qns = Inr (Some i) \<Longrightarrow> report_issue NOTSET k nm = Inr i"
  by (induction qns) (auto simp: returned_def split: if_splits sum.splits)

lemma call_checks_SomeD:
  "call_checks fnm NOTSET nm checks = Inr (Some i) \<Longrightarrow>
   \<exists>k\<in>set checks. report_issue NOTSET k nm = Inr i"
proof (induction checks)
  case Nil
  then show ?case by simp
next
  case (Cons k checks)
  then show ?case
    by (auto split: option.splits sum.splits dest: call_qualnames_SomeD)
qed

lemma import_qualnames_SomeD:
  "import_qualnames NOTSET pfx a k qns = Inr (Some i) \<Longrightarrow>
   report_issue NOTSET k (PStr (name a)) = Inr i"
  by (induction qns) (auto simp: returned_def split: if_splits sum.splits pyval.splits)

lemma import_names_SomeD:
  "import_names NOTSET pfx k names = Inr (Some i) \<Longrightarrow>
   \<exists>a\<in>set names. report_issue NOTSET k (PStr (name a)) = Inr i"
proof (induction names)
  case Nil
  then show ?case by simp
next
  case (Cons a names)
  then show ?case
    by (auto split: option.splits sum.splits dest: import_qualnames_SomeD)
qed

lemma import_checks_SomeD:
  "import_checks NOTSET pfx names checks = Inr (Some i) \<Longrightarrow>
   \<exists>k\<in>set checks. \<exists>a\<in>set names. report_issue NOTSET k (PStr (name a)) = Inr i"
proof (induction checks)
  case Nil
  then show ?case by simp
next
  case (Cons k checks)
  then show ?case
    by (auto split: option.splits sum.splits dest: import_names_SomeD)
qed

lemma report_issue_InrD:
  assumes "report_issue NOTSET k nm = Inr i"
  shows "\<exists>m n. k ''message'' = Some (PStr m) \<and> nm = PStr n
     \<and> i = \<lparr>severity = dict_get k ''level'' (PStr ''MEDIUM''),
            confidence = PStr ''HIGH'',
            cwe = Some (dict_get k ''cwe'' NOTSET),
            text' = replace m ''{name}'' n,
            ident = Some (PStr n),
            lineno = None,
            test_id = Some (dict_get k ''id'' (PStr ''LEGACY''))\<rparr>"
  using assms by (auto simp: report_issue_def split: option.splits pyval.splits)

text \<open>
  Claim C2, as the code has it. Every issue \<open>blacklist\<close> returns is built from a rule
  \<open>k\<close> of the node's type whose message is a string \<open>m\<close>: its severity is the rule's
  \<open>level\<close>, or \<open>MEDIUM\<close> when the rule has none; its confidence is \<open>HIGH\<close> whatever
  the rule declares; its weakness id is the rule's \<open>cwe\<close>, or \<open>NOTSET\<close> when the rule
  has none; its text is \<open>m\<close> with every \<open>{name}\<close> replaced by \<open>n\<close>, where \<open>n\<close> is the
  resolved name at a \<open>Call\<close> node and the imported name, without the module prefix, at
  an import node.
\<close>

theorem blacklist_issue_fields:
  assumes "blacklist fnm NOTSET c config = Inr (Some i)"
  shows "\<exists>k\<in>set (rules_for config (node c)). \<exists>m n.
           k ''message'' = Some (PStr m)
         \<and> (case node c of
              Call func args \<Rightarrow> call_name c func args = Inr (PStr n)
            | Import names \<Rightarrow> n \<in> set (map name names)
            | ImportFrom module names \<Rightarrow> n \<in> set (map name names)
            | OtherNode \<Rightarrow> False)
         \<and> i = \<lparr>severity = dict_get k ''level'' (PStr ''MEDIUM''),
                confidence = PStr ''HIGH'',
                cwe = Some (dict_get k ''cwe'' NOTSET),
                text' = replace m ''{name}'' n,
                ident = Some (PStr n),
                lineno = None,
                test_id = Some (dict_get k ''id'' (PStr ''LEGACY''))\<rparr>"
proof (cases "node c")
  case (Call func args)
  with assms obtain nm checks where nm: "call_name c func args = Inr nm"
    and cfg: "config ''Call'' = Some checks"
    and res: "call_checks fnm NOTSET nm checks = Inr (Some i)"
    by (auto simp: blacklist_def split: sum.splits option.splits)
  from call_checks_SomeD [OF res] obtain k where k: "k \<in> set checks"
    and r: "report_issue NOTSET k nm = Inr i" by blast
  from report_issue_InrD [OF r] nm k cfg Call show ?thesis
    by (auto simp: rules_for_def)
next
  case (Import names)
  with assms obtain checks where cfg: "config ''Import'' = Some checks"
    and res: "import_checks NOTSET [] names checks = Inr (Some i)"
    by (auto simp: blacklist_def split: option.splits)
  from import_checks_SomeD [OF res] obtain k a where k: "k \<in> set checks"
    and a: "a \<in> set names" and r: "report_issue NOTSET k (PStr (name a)) = Inr i" by blast
  from report_issue_InrD [OF r] a k cfg Import show ?thesis
    by (auto simp: rules_for_def)
next
  case (ImportFrom module names)
  with assms obtain checks where cfg: "config ''ImportFrom'' = Some checks"
    and res: "import_checks NOTSET (case module of None \<Rightarrow> [] | Some m \<Rightarrow> m @ ''.'')
        names checks = Inr (Some i)"
    by (auto simp: blacklist_def split: option.splits)
  from import_checks_SomeD [OF res] obtain k a where k: "k \<in> set checks"
    and a: "a \<in> set names" and r: "report_issue NOTSET k (PStr (name a)) = Inr i" by blast
  from report_issue_InrD [OF r] a k cfg ImportFrom show ?thesis
    by (auto simp: rules_for_def)
next
  case OtherNode
  with assms show ?thesis by (simp add: blacklist_def)
qed

text \<open>
  Claim C2 as stated fails. The rule \<open>rule_pickle_any\<close> declares the confidence
  \<open>LOW\<close> and its issue has the confidence \<open>HIGH\<close>; and \<open>from os import system\<close>
  matches the pattern \<open>os.system\<close> while the text names \<open>system\<close>.
\<close>

theorem blacklist_confidence_counterexample:
  "blacklist glob (PInt 0) call_pickle_loads (map_of [(''Call'', [rule_pickle_any])])
     = Inr (Some \<lparr>severity = PStr ''LOW'', confidence = PStr ''HIGH'', cwe = Some (PInt 502),
          text' = ''Pickle call pickle.loads: pickle.loads is unsafe.'',
          ident = Some (PStr ''pickle.loads''), lineno = None,
          test_id = Some (PStr ''B301'')\<rparr>)
   \<and> rule_pickle_any ''confidence'' = Some (PStr ''LOW'')
   \<and> blacklist glob (PInt 0) from_os_import_system
        (map_of [(''ImportFrom'', [example_rule [''os.system''] ''Import of {name}''])])
     = Inr (Some \<lparr>severity = PStr ''MEDIUM'', confidence = PStr ''HIGH'', cwe = Some (PInt 0),
          text' = ''Import of system'',
          ident = Some (PStr ''system''), lineno = None,
          test_id = Some (PStr ''LEGACY'')\<rparr>)"
  by (simp add: blacklist_def call_name_def call_pickle_loads_def from_os_import_system_def
      example_call_def example_import_def rule_pickle_any_def example_rule_def
      py_fnmatch_def report_issue_def dict_get_def)

text \<open>The issue of \<open>from os import system\<close> and the rule it comes from.\<close>

theorem blacklist_issue_fields_witness:
  "blacklist glob (PInt 0) from_os_import_system
        (map_of [(''ImportFrom'', [example_rule [''os.system''] ''Import of {name}''])])
     = Inr (Some \<lparr>severity = PStr ''MEDIUM'', confidence = PStr ''HIGH'', cwe = Some (PInt 0),
          text' = ''Import of system'',
          ident = Some (PStr ''system''), lineno = None,
          test_id = Some (PStr ''LEGACY'')\<rparr>)
   \<and> (\<exists>k\<in>set (rules_for
            (map_of [(''ImportFrom'', [example_rule [''os.system''] ''Import of {name}''])])
            (node from_os_import_system)). \<exists>m n.
           k ''message'' = Some (PStr m)
         \<and> (case node from_os_import_system of
              Call func args \<Rightarrow> call_name from_os_import_system func args = Inr (PStr n)
            | Import names \<Rightarrow> n \<in> set (map name names)
            | ImportFrom module names \<Rightarrow> n \<in> set (map name names)
            | OtherNode \<Rightarrow> False)
         \<and> \<lparr>severity = PStr ''MEDIUM'', confidence = PStr ''HIGH'', cwe = Some (PInt 0),
          text' = ''Import of system'',
          ident = Some (PStr ''system''), lineno = None,
          test_id = Some (PStr ''LEGACY'')\<rparr>
           = \<lparr>severity = dict_get k ''level'' (PStr ''MEDIUM''),
                confidence = PStr ''HIGH'',
                cwe = Some (dict_get k ''cwe'' (PInt 0)),
                text' = replace m ''{name}'' n,
                ident = Some (PStr n),
                lineno = None,
                test_id = Some (dict_get k ''id'' (PStr ''LEGACY''))\<rparr>)"
proof -
  have h: "blacklist glob (PInt 0) from_os_import_system
        (map_of [(''ImportFrom'', [example_rule [''os.system''] ''Import of {name}''])])
     = Inr (Some \<lparr>severity = PStr ''MEDIUM'', confidence = PStr ''HIGH'', cwe = Some (PInt 0),
          text' = ''Import of system'',
          ident = Some (PStr ''system''), lineno = None,
          test_id = Some (PStr ''LEGACY'')\<rparr>)"
    by (simp add: blacklist_def from_os_import_system_def example_import_def example_rule_def
        report_issue_def dict_get_def)
  from blacklist_issue_fields [OF h] h show ?thesis by blast
qed

section \<open>Dynamic imports\<close>

text \<open>
  Claim C4. The call \<open>importlib.import_module()\<close>, with no positional argument and no
  \<open>name\<close> keyword, raises \<open>KeyError\<close> in \<open>blacklist\<close>, where the claim has it resolve
  to an unknown marker; the call \<open>__import__()\<close> on the sibling path resolves to the
  empty name and returns \<open>None\<close>.
\<close>

theorem blacklist_import_module_no_args_raises:
  "blacklist glob (PInt 0) call_import_module_no_args (map_of [(''Call'', [rule_yaml])])
     = Inl KeyError
   \<and> blacklist glob (PInt 0) call_dunder_import_no_args (map_of [(''Call'', [rule_yaml])])
     = Inr None"
  by (simp add: blacklist_def call_name_def call_import_module_no_args_def
      call_dunder_import_no_args_def example_call_def rule_yaml_def py_fnmatch_def)

section \<open>Requests calls and their timeout\<close>

text \<open>
  Claim C5. At a call whose qualified name contains \<open>requests\<close> and whose name is an
  HTTP verb: without a \<open>timeout\<close> keyword the detector returns the issue of severity
  \<open>MEDIUM\<close> and confidence \<open>LOW\<close> with the text "Requests call without timeout"; with
  \<open>timeout=None\<close>, which the context resolves to the string \<open>None\<close> the detector
  compares with, it returns the issue with the text "Requests call with timeout set to
  None" and the same severity and confidence; with any other resolved value it returns
  no issue.
\<close>

theorem request_without_timeout_scenarios:
  assumes "sublist ''requests'' (call_function_name_qual c)"
    and "call_function_name c \<in> set http_verbs"
  shows "(call_keywords c ''timeout'' = None \<longrightarrow>
            request_without_timeout c =
              Some \<lparr>severity = MEDIUM, confidence = LOW, cwe = None,
                    text' = ''Requests call without timeout'',
                    ident = None, lineno = None, test_id = None\<rparr>)
       \<and> (call_keywords c ''timeout'' = Some (PStr ''None'') \<longrightarrow>
            request_without_timeout c =
              Some \<lparr>severity = MEDIUM, confidence = LOW, cwe = None,
                    text' = ''Requests call with timeout set to None'',
                    ident = None, lineno = None, test_id = None\<rparr>)
       \<and> (\<forall>v. call_keywords c ''timeout'' = Some v \<longrightarrow> v \<noteq> PNone \<longrightarrow> v \<noteq> PStr ''None''
            \<longrightarrow> request_without_timeout c = None)"
  using assms by (simp add: request_without_timeout_def check_call_arg_value_def)

lemma sublist_requests_get: "sublist ''requests'' ''requests.get''"
  by (simp add: sublist_Cons_right)

text \<open>The calls \<open>requests.get(url)\<close>, with \<open>timeout=None\<close> and with \<open>timeout=5\<close>.\<close>

theorem request_without_timeout_scenarios_witness:
  "request_without_timeout (requests_get []) =
      Some \<lparr>severity = PStr ''MEDIUM'', confidence = PStr ''LOW'', cwe = None,
            text' = ''Requests call without timeout'',
            ident = None, lineno = None, test_id = None\<rparr>
   \<and> request_without_timeout (requests_get [(''timeout'', PStr ''None'')]) =
      Some \<lparr>severity = PStr ''MEDIUM'', confidence = PStr ''LOW'', cwe = None,
            text' = ''Requests call with timeout set to None'',
            ident = None, lineno = None, test_id = None\<rparr>
   \<and> request_without_timeout (requests_get [(''timeout'', PInt 5)]) = None"
proof -
  have q: "sublist ''requests'' (call_function_name_qual (requests_get kws))" for kws
    by (simp add: requests_get_def example_call_def sublist_requests_get)
  have v: "call_function_name (requests_get kws) \<in> set http_verbs" for kws
    by (simp add: requests_get_def example_call_def http_verbs_def)
  have k1: "call_keywords (requests_get []) ''timeout'' = None"
    by (simp add: requests_get_def example_call_def)
  have k2: "call_keywords (requests_get [(''timeout'', PStr ''None'')]) ''timeout''
      = Some (PStr ''None'')"
    by (simp add: requests_get_def example_call_def)
  have k3: "call_keywords (requests_get [(''timeout'', PInt 5)]) ''timeout'' = Some (PInt 5)"
    by (simp add: requests_get_def example_call_def)
  from request_without_timeout_scenarios [OF q v, of "[]"] k1
  have a: "request_without_timeout (requests_get []) =
      Some \<lparr>severity = PStr ''MEDIUM'', confidence = PStr ''LOW'', cwe = None,
            text' = ''Requests call without timeout'',
            ident = None, lineno = None, test_id = None\<rparr>"
    by (simp add: MEDIUM_def LOW_def)
  from request_without_timeout_scenarios [OF q v, of "[(''timeout'', PStr ''None'')]"] k2
  have b: "request_without_timeout (requests_get [(''timeout'', PStr ''None'')]) =
      Some \<lparr>severity = PStr ''MEDIUM'', confidence = PStr ''LOW'', cwe = None,
            text' = ''Requests call with timeout set to None'',
            ident = None, lineno = None, test_id = None\<rparr>"
    by (simp add: MEDIUM_def LOW_def)
  from request_without_timeout_scenarios [OF q v, of "[(''timeout'', PInt 5)]"] k3
  have c: "request_without_timeout (requests_get [(''timeout'', PInt 5)]) = None"
    by simp
  from a b c show ?thesis by simp
qed

text \<open>
  Claim C9. The detector returns an issue only when the qualified name contains
  \<open>requests\<close> as a substring and the unqualified name is one of the seven HTTP verbs;
  and at a call without a \<open>timeout\<close> keyword it returns one exactly then. The test on
  the qualified name is containment, not a prefix test.
\<close>

theorem request_without_timeout_substring_gate:
  "(request_without_timeout c \<noteq> None \<longrightarrow>
      sublist ''requests'' (call_function_name_qual c)
      \<and> call_function_name c \<in> set http_verbs)
   \<and> (call_keywords c ''timeout'' = None \<longrightarrow>
        (request_without_timeout c \<noteq> None) =
          (sublist ''requests'' (call_function_name_qual c)
           \<and> call_function_name c \<in> set http_verbs))"
  by (simp add: request_without_timeout_def check_call_arg_value_def)

text \<open>
  The call \<open>my_requests_util.get(url)\<close> is flagged, and \<open>requests\<close> is not a prefix of
  its qualified name.
\<close>

theorem request_without_timeout_substring_gate_witness:
  "request_without_timeout my_requests_util_get \<noteq> None
   \<and> \<not> prefix ''requests'' (call_function_name_qual my_requests_util_get)"
  using request_without_timeout_substring_gate [of my_requests_util_get]
  by (simp add: my_requests_util_get_def example_call_def http_verbs_def sublist_Cons_right)

section \<open>The host key policy\<close>

text \<open>
  Claim C6. At a call named \<open>set_missing_host_key_policy\<close> whose first positional
  argument resolves to \<open>AutoAddPolicy\<close>, with \<open>B507\<close> in the weakness table: when the
  file imports a module like \<open>paramiko\<close> the detector returns one issue of severity
  \<open>HIGH\<close> and confidence \<open>MEDIUM\<close>, and otherwise it returns no issue.
\<close>

theorem ssh_no_host_key_verification_paramiko:
  assumes "call_function_name c = ''set_missing_host_key_policy''"
    and "call_args c = PStr ''AutoAddPolicy'' # rest"
    and "CWEMAP ''B507'' = Some w"
  shows "(is_module_imported_like c ''paramiko'' \<longrightarrow>
            ssh_no_host_key_verification CWEMAP c =
              Inr (Some \<lparr>severity = HIGH, confidence = MEDIUM, cwe = Some w,
                 text' = ''Paramiko call with policy set to automatically trust the unknown host key.'',
                 ident = None,
                 lineno = get_lineno_for_call_arg c ''set_missing_host_key_policy'',
                 test_id = None\<rparr>))
       \<and> (\<not> is_module_imported_like c ''paramiko'' \<longrightarrow>
            ssh_no_host_key_verification CWEMAP c = Inr None)"
  using assms by (simp add: ssh_no_host_key_verification_def)

text \<open>The same call in a file that imports \<open>paramiko\<close> and in one that does not.\<close>

theorem ssh_no_host_key_verification_paramiko_witness:
  "ssh_no_host_key_verification (map_of [(''B507'', PInt 295)])
       (set_policy_call [PStr ''AutoAddPolicy''] [] [''paramiko'']) =
      Inr (Some \<lparr>severity = PStr ''HIGH'', confidence = PStr ''MEDIUM'', cwe = Some (PInt 295),
         text' = ''Paramiko call with policy set to automatically trust the unknown host key.'',
         ident = None, lineno = None, test_id = None\<rparr>)
   \<and> ssh_no_host_key_verification (map_of [(''B507'', PInt 295)])
       (set_policy_call [PStr ''AutoAddPolicy''] [] []) = Inr None"
proof -
  have n: "call_function_name (set_policy_call vals kws imp) = ''set_missing_host_key_policy''"
    for vals kws imp
    by (simp add: set_policy_call_def example_call_def)
  have a: "call_args (set_policy_call [PStr ''AutoAddPolicy''] kws imp)
      = PStr ''AutoAddPolicy'' # []" for kws imp
    by (simp add: set_policy_call_def example_call_def)
  have w: "map_of [(''B507'', PInt 295)] ''B507'' = Some (PInt 295)"
    by simp
  from ssh_no_host_key_verification_paramiko
    [where c = "set_policy_call [PStr ''AutoAddPolicy''] [] [''paramiko'']"
      and CWEMAP = "map_of [(''B507'', PInt 295)]", OF n a w]
  have x: "ssh_no_host_key_verification (map_of [(''B507'', PInt 295)])
       (set_policy_call [PStr ''AutoAddPolicy''] [] [''paramiko'']) =
      Inr (Some \<lparr>severity = PStr ''HIGH'', confidence = PStr ''MEDIUM'', cwe = Some (PInt 295),
         text' = ''Paramiko call with policy set to automatically trust the unknown host key.'',
         ident = None, lineno = None, test_id = None\<rparr>)"
    by (simp add: set_policy_call_def example_call_def HIGH_def MEDIUM_def)
  from ssh_no_host_key_verification_paramiko
    [where c = "set_policy_call [PStr ''AutoAddPolicy''] [] []"
      and CWEMAP = "map_of [(''B507'', PInt 295)]", OF n a w]
  have y: "ssh_no_host_key_verification (map_of [(''B507'', PInt 295)])
       (set_policy_call [PStr ''AutoAddPolicy''] [] []) = Inr None"
    by (simp add: set_policy_call_def example_call_def)
  from x y show ?thesis by simp
qed

text \<open>
  Claim C10. The detector returns an issue only when the first positional argument
  resolves to \<open>AutoAddPolicy\<close> or \<open>WarningPolicy\<close>; a call without positional arguments,
  whatever its keywords, and a call whose first positional argument resolves to anything
  else yield no issue; and \<open>WarningPolicy\<close> gives the result \<open>AutoAddPolicy\<close> gives.
\<close>

theorem ssh_no_host_key_verification_first_arg:
  "(ssh_no_host_key_verification CWEMAP c = Inr (Some i) \<longrightarrow>
      (\<exists>rest. call_args c = PStr ''AutoAddPolicy'' # rest
             \<or> call_args c = PStr ''WarningPolicy'' # rest))
   \<and> (call_args c = [] \<longrightarrow> ssh_no_host_key_verification CWEMAP c = Inr None)
   \<and> (\<forall>a rest. call_args c = a # rest \<longrightarrow> a \<noteq> PStr ''AutoAddPolicy''
         \<longrightarrow> a \<noteq> PStr ''WarningPolicy''
         \<longrightarrow> ssh_no_host_key_verification CWEMAP c = Inr None)
   \<and> (\<forall>rest. call_args c = PStr ''AutoAddPolicy'' # rest \<longrightarrow>
         ssh_no_host_key_verification CWEMAP (c\<lparr>call_args := PStr ''WarningPolicy'' # rest\<rparr>)
           = ssh_no_host_key_verification CWEMAP c)"
  by (auto simp: ssh_no_host_key_verification_def split: if_splits list.splits option.splits)

text \<open>
  \<open>WarningPolicy\<close> is flagged; the keyword-only call, the call with \<open>RejectPolicy\<close> and
  the call with an argument the context cannot resolve are not.
\<close>

theorem ssh_no_host_key_verification_first_arg_witness:
  "ssh_no_host_key_verification (map_of [(''B507'', PInt 295)])
       (set_policy_call [PStr ''WarningPolicy''] [] [''paramiko'']) =
      Inr (Some \<lparr>severity = PStr ''HIGH'', confidence = PStr ''MEDIUM'', cwe = Some (PInt 295),
         text' = ''Paramiko call with policy set to automatically trust the unknown host key.'',
         ident = None, lineno = None, test_id = None\<rparr>)
   \<and> ssh_no_host_key_verification (map_of [(''B507'', PInt 295)])
       (set_policy_call [] [(''policy'', PStr ''AutoAddPolicy'')] [''paramiko'']) = Inr None
   \<and> ssh_no_host_key_verification (map_of [(''B507'', PInt 295)])
       (set_policy_call [PStr ''RejectPolicy''] [] [''paramiko'']) = Inr None
   \<and> ssh_no_host_key_verification (map_of [(''B507'', PInt 295)])
       (set_policy_call [PNone] [] [''paramiko'']) = Inr None"
proof -
  let ?M = "map_of [(''B507'', PInt 295)]"
  note T = ssh_no_host_key_verification_first_arg [where CWEMAP = ?M]
  have e: "call_args (set_policy_call vals kws imp) = vals" for vals kws imp
    by (simp add: set_policy_call_def example_call_def)
  have upd: "(set_policy_call (PStr ''AutoAddPolicy'' # rest) kws imp)
      \<lparr>call_args := PStr ''WarningPolicy'' # rest\<rparr>
      = set_policy_call (PStr ''WarningPolicy'' # rest) kws imp" for rest kws imp
    by (simp add: set_policy_call_def example_call_def)
  have auto_add: "ssh_no_host_key_verification ?M
       (set_policy_call [PStr ''AutoAddPolicy''] [] [''paramiko'']) =
      Inr (Some \<lparr>severity = PStr ''HIGH'', confidence = PStr ''MEDIUM'', cwe = Some (PInt 295),
         text' = ''Paramiko call with policy set to automatically trust the unknown host key.'',
         ident = None, lineno = None, test_id = None\<rparr>)"
    by (simp add: ssh_no_host_key_verification_def set_policy_call_def example_call_def
        HIGH_def MEDIUM_def)
  have a: "ssh_no_host_key_verification ?M
       (set_policy_call [PStr ''WarningPolicy''] [] [''paramiko'']) =
      Inr (Some \<lparr>severity = PStr ''HIGH'', confidence = PStr ''MEDIUM'', cwe = Some (PInt 295),
         text' = ''Paramiko call with policy set to automatically trust the unknown host key.'',
         ident = None, lineno = None, test_id = None\<rparr>)"
    using T [where c = "set_policy_call [PStr ''AutoAddPolicy''] [] [''paramiko'']"]
      auto_add
    by (simp add: e upd)
  have b: "ssh_no_host_key_verification ?M
       (set_policy_call [] [(''policy'', PStr ''AutoAddPolicy'')] [''paramiko'']) = Inr None"
    using T [where c = "set_policy_call [] [(''policy'', PStr ''AutoAddPolicy'')] [''paramiko'']"]
    by (simp add: e)
  have c: "ssh_no_host_key_verification ?M
       (set_policy_call [PStr ''RejectPolicy''] [] [''paramiko'']) = Inr None"
    using T [where c = "set_policy_call [PStr ''RejectPolicy''] [] [''paramiko'']"]
    by (simp add: e)
  have d: "ssh_no_host_key_verification ?M
       (set_policy_call [PNone] [] [''paramiko'']) = Inr None"
    using T [where c = "set_policy_call [PNone] [] [''paramiko'']"]
    by (simp add: e)
  from a b c d show ?thesis by simp
qed

section \<open>The exit status of a scan\<close>

text \<open>
  Claim C8. When the two ranking lookups succeed, \<open>main\<close> exits with a status that is
  nonzero exactly when the count of results under the selected severity and confidence
  is positive and \<open>exit_zero\<close> is not set; with \<open>exit_zero\<close> set, or a count of zero,
  the status is zero.
\<close>

theorem main_exit_status_iff:
  assumes "py_index RANKING (args_severity a - 1) = Inr sev_level"
    and "py_index RANKING (args_confidence a - 1) = Inr conf_level"
  shows "\<exists>st. main_exit_status RANKING results_count a = Inr st
           \<and> (st \<noteq> 0) = (results_count sev_level conf_level > 0 \<and> \<not> exit_zero a)
           \<and> (results_count sev_level conf_level \<le> 0 \<or> exit_zero a \<longrightarrow> st = 0)"
  using assms by (simp add: main_exit_status_def)

text \<open>Three results without and with \<open>--exit-zero\<close>, and no result.\<close>

theorem main_exit_status_iff_witness:
  "main_exit_status example_RANKING (example_results_count 3)
      \<lparr>args_severity = 2, args_confidence = 1, exit_zero = False\<rparr> = Inr 1
   \<and> main_exit_status example_RANKING (example_results_count 3)
      \<lparr>args_severity = 2, args_confidence = 1, exit_zero = True\<rparr> = Inr 0
   \<and> main_exit_status example_RANKING (example_results_count 0)
      \<lparr>args_severity = 2, args_confidence = 1, exit_zero = False\<rparr> = Inr 0"
proof -
  have s: "py_index example_RANKING (args_severity \<lparr>args_severity = 2, args_confidence = 1,
      exit_zero = z\<rparr> - 1) = Inr (PStr ''LOW'')" for z
    by (simp add: py_index_def example_RANKING_def)
  have c: "py_index example_RANKING (args_confidence \<lparr>args_severity = 2, args_confidence = 1,
      exit_zero = z\<rparr> - 1) = Inr (PStr ''UNDEFINED'')" for z
    by (simp add: py_index_def example_RANKING_def)
  have x: "main_exit_status example_RANKING (example_results_count 3)
      \<lparr>args_severity = 2, args_confidence = 1, exit_zero = False\<rparr> = Inr 1"
    using main_exit_status_iff [where RANKING = example_RANKING
        and results_count = "example_results_count 3"
        and a = "\<lparr>args_severity = 2, args_confidence = 1, exit_zero = False\<rparr>", OF s c]
    by (auto simp: main_exit_status_def py_index_def example_RANKING_def)
  have y: "main_exit_status example_RANKING (example_results_count 3)
      \<lparr>args_severity = 2, args_confidence = 1, exit_zero = True\<rparr> = Inr 0"
    using main_exit_status_iff [where RANKING = example_RANKING
        and results_count = "example_results_count 3"
        and a = "\<lparr>args_severity = 2, args_confidence = 1, exit_zero = True\<rparr>", OF s c]
    by auto
  have z: "main_exit_status example_RANKING (example_results_count 0)
      \<lparr>args_severity = 2, args_confidence = 1, exit_zero = False\<rparr> = Inr 0"
    using main_exit_status_iff [where RANKING = example_RANKING
        and results_count = "example_results_count 0"
        and a = "\<lparr>args_severity = 2, args_confidence = 1, exit_zero = False\<rparr>", OF s c]
    by auto
  from x y z show ?thesis by simp
qed

end
